theory Spec2Isabelle
  imports Main
begin

section \<open>Values, objects and the store\<close>

text \<open>
  The development embeds \<^verbatim>\<open>src/src/censor.js\<close>: the context class, the instance engine
  (\<^verbatim>\<open>CensorObject\<close>) with call and attribute interception, the descriptor lookup and the
  dispatcher \<^verbatim>\<open>censor\<close> with the constructors it calls. Event interception (\<^verbatim>\<open>on\<close>) and the
  replay of a class template onto an instance (\<^verbatim>\<open>CensorClass.apply\<close>) are not part of it.

  Function values are defunctionalised: every closure the library creates is a constructor
  of \<open>fn\<close> holding exactly the variables the closure captures. Functions supplied by the
  host or by the caller (originals, handles, accessors) are \<open>FUser\<close> values; their code is
  looked up in a table that is a parameter of the interpreter.
\<close>

type_synonym ref = nat

datatype fn =
    FUser nat string bool
      \<comment> \<open>host or caller function: code id, its \<^verbatim>\<open>name\<close>, whether it is an \<^verbatim>\<open>async\<close> function\<close>
  | FForeign nat string bool
      \<comment> \<open>a host function that is no instance of this realm's \<^verbatim>\<open>Object\<close> (its prototype chain
          is empty or belongs to another realm): code id, \<^verbatim>\<open>name\<close>, whether its
          \<^verbatim>\<open>Symbol.toStringTag\<close> reads \<^verbatim>\<open>"AsyncFunction"\<close>\<close>
  | FObject
      \<comment> \<open>the global \<^verbatim>\<open>Object\<close> constructor\<close>
  | FHasOwnProperty
      \<comment> \<open>\<^verbatim>\<open>Object.prototype.hasOwnProperty\<close>\<close>
  | FCallCallback ref string
      \<comment> \<open>\<^verbatim>\<open>(...args) => this.call(name, ...args)\<close> of whenCall: engine, name\<close>
  | FCallWrapper ref fn bool
      \<comment> \<open>the replacement \<^verbatim>\<open>f\<close> of whenCall: ctx, handle, async or not\<close>
  | FAttrGet ref ref string ref
      \<comment> \<open>\<^verbatim>\<open>desc["get"]\<close> of whenAttr: context, originalObject, name, handles\<close>
  | FAttrSet ref ref string ref
      \<comment> \<open>\<^verbatim>\<open>desc["set"]\<close> of whenAttr: context, originalObject, name, handles\<close>
  | FGetCallback ref string
      \<comment> \<open>\<^verbatim>\<open>() => originalObject.getAttr(name)\<close>\<close>
  | FSetCallback ref string
      \<comment> \<open>\<^verbatim>\<open>(_asgn) => originalObject.setAttr(name, _asgn)\<close>\<close>
  | FGenFunc ref
      \<comment> \<open>the function returned by \<^verbatim>\<open>CensorClass.genFunc\<close>: originalObject\<close>

text \<open>
  A promise is represented by its settlement (\<open>VFulfilled\<close>, \<open>VRejected\<close>): the model follows
  the values that flow through \<^verbatim>\<open>async\<close>/\<^verbatim>\<open>await\<close>, not the scheduling of the event loop.
  Numbers are opaque to the library, so an integer stands for them.
\<close>

datatype jsval =
    VUndefined
  | VNull
  | VBool bool
  | VNum int
  | VBigInt int
  | VStr string
  | VSymbol nat
  | VObj ref
  | VFun fn
  | VCtx ref
  | VEng ref
  | VCls ref
  | VFulfilled jsval
  | VRejected error
and error =
    TypeError string
  | ReferenceError string
  | Thrown jsval
  | OutOfFuel
  | Unmodelled
      \<comment> \<open>the program left the fragment of JavaScript that is modelled\<close>

text \<open>A property is a data property (value, writable, enumerable, configurable) or an
  accessor property (get, set, enumerable, configurable), as in ECMA-262 6.1.7.1.\<close>

datatype jsprop =
    DataP jsval bool bool bool
  | AccP "fn option" "fn option" bool bool

record jsobj =
  props :: "string \<rightharpoonup> jsprop"
  proto :: jsval
  extensible :: bool

record CensorContext =
  ctx_parent :: jsval
  ctx_name :: string
  ctx_args :: "jsval list option"
  ctx_callback :: jsval

record CensorObject =
  object :: jsval

record CensorClass =
  cls :: jsval
  cls_name :: jsval
  eventHandles :: "(string \<times> jsval) list"
  callHandles :: "(string \<times> jsval) list"
  attrHandles :: "(string \<times> jsval) list"

record state =
  objs :: "ref \<rightharpoonup> jsobj"
  ctxs :: "ref \<rightharpoonup> CensorContext"
  engs :: "ref \<rightharpoonup> CensorObject"
  clss :: "ref \<rightharpoonup> CensorClass"
  window :: "jsval option"
  object_proto :: ref
  fresh :: ref

section \<open>Computations that may throw\<close>

type_synonym 'a comp = "state \<Rightarrow> (error + 'a) \<times> state"

type_synonym invoker = "fn \<Rightarrow> jsval \<Rightarrow> jsval list \<Rightarrow> jsval comp"

definition ret :: "'a \<Rightarrow> 'a comp" where
  "ret x = (\<lambda>s. (Inr x, s))"

definition throw :: "error \<Rightarrow> 'a comp" where
  "throw e = (\<lambda>s. (Inl e, s))"

definition bnd :: "'a comp \<Rightarrow> ('a \<Rightarrow> 'b comp) \<Rightarrow> 'b comp" where
  "bnd m f = (\<lambda>s. case m s of (Inl e, s') \<Rightarrow> (Inl e, s') | (Inr x, s') \<Rightarrow> f x s')"

lemma bnd_cong [fundef_cong]:
  "m1 = m2 \<Longrightarrow> (\<And>x. f1 x = f2 x) \<Longrightarrow> bnd m1 f1 = bnd m2 f2"
  by (auto simp: bnd_def fun_eq_iff split: prod.splits sum.splits)

section \<open>The host language\<close>

fun typeof :: "jsval \<Rightarrow> string" where
  "typeof VUndefined = ''undefined''"
| "typeof VNull = ''object''"
| "typeof (VBool b) = ''boolean''"
| "typeof (VNum n) = ''number''"
| "typeof (VBigInt n) = ''bigint''"
| "typeof (VStr x) = ''string''"
| "typeof (VSymbol n) = ''symbol''"
| "typeof (VFun f) = ''function''"
| "typeof v = ''object''"

fun truthy :: "jsval \<Rightarrow> bool" where
  "truthy VUndefined = False"
| "truthy VNull = False"
| "truthy (VBool b) = b"
| "truthy (VNum n) = (n \<noteq> 0)"
| "truthy (VBigInt n) = (n \<noteq> 0)"
| "truthy (VStr x) = (x \<noteq> [])"
| "truthy v = True"




fun is_async :: "fn \<Rightarrow> bool" where
  "is_async (FUser k n a) = a"
| "is_async (FForeign k n a) = a"
| "is_async (FCallWrapper c h a) = a"
| "is_async g = False"

text \<open>Property lookup along the prototype chain (ECMA-262 10.1.8, OrdinaryGet). References
  are handed out in allocation order and the model has no \<^verbatim>\<open>setPrototypeOf\<close>, so a prototype
  is older than the objects inheriting from it: the walk follows strictly smaller references.\<close>

fun lookup_prop :: "(ref \<rightharpoonup> jsobj) \<Rightarrow> ref \<Rightarrow> string \<Rightarrow> jsprop option" where
  "lookup_prop h r k =
     (case h r of
        None \<Rightarrow> None
      | Some ob \<Rightarrow>
          (case props ob k of
             Some p \<Rightarrow> Some p
           | None \<Rightarrow>
               (case proto ob of
                  VObj r' \<Rightarrow> if r' < r then lookup_prop h r' k else None
                | _ \<Rightarrow> None)))"

definition fn_value :: "fn option \<Rightarrow> jsval" where
  "fn_value g = (case g of None \<Rightarrow> VUndefined | Some f \<Rightarrow> VFun f)"

text \<open>\<^verbatim>\<open>Object.prototype.hasOwnProperty\<close> applied to a receiver and a string key.\<close>

definition hasOwnProperty :: "jsval \<Rightarrow> jsval list \<Rightarrow> jsval comp" where
  "hasOwnProperty this args = (\<lambda>s.
     case this of
       VUndefined \<Rightarrow> (Inl (TypeError ''Cannot convert undefined or null to object''), s)
     | VNull \<Rightarrow> (Inl (TypeError ''Cannot convert undefined or null to object''), s)
     | VObj r \<Rightarrow>
         (case objs s r of
            None \<Rightarrow> (Inl Unmodelled, s)
          | Some ob \<Rightarrow>
              (case args of
                 VStr k # _ \<Rightarrow> (Inr (VBool (props ob k \<noteq> None)), s)
               | _ \<Rightarrow> (Inl Unmodelled, s)))
     | _ \<Rightarrow> (Inl Unmodelled, s))"

text \<open>Calling a value: only functions are callable. The built-in needs no interpreter;
  every other function is run by the invoker.\<close>

definition call_value :: "invoker \<Rightarrow> jsval \<Rightarrow> jsval \<Rightarrow> jsval list \<Rightarrow> jsval comp" where
  "call_value ivk f this args =
     (case f of
        VFun FHasOwnProperty \<Rightarrow> hasOwnProperty this args
      | VFun g \<Rightarrow> ivk g this args
      | _ \<Rightarrow> throw (TypeError ''is not a function''))"

text \<open>\<^verbatim>\<open>v[k]\<close> as an expression (ECMA-262 [[Get]]): a getter found on the chain runs with the
  object as receiver.\<close>

definition get :: "invoker \<Rightarrow> jsval \<Rightarrow> string \<Rightarrow> jsval comp" where
  "get ivk v k = (\<lambda>s.
     case v of
       VUndefined \<Rightarrow> (Inl (TypeError ''Cannot read properties of undefined''), s)
     | VNull \<Rightarrow> (Inl (TypeError ''Cannot read properties of null''), s)
     | VObj r \<Rightarrow>
         (case objs s r of
            None \<Rightarrow> (Inl Unmodelled, s)
          | Some ob \<Rightarrow>
              (case lookup_prop (objs s) r k of
                 None \<Rightarrow> (Inr VUndefined, s)
               | Some (DataP x w e c) \<Rightarrow> (Inr x, s)
               | Some (AccP None st e c) \<Rightarrow> (Inr VUndefined, s)
               | Some (AccP (Some g) st e c) \<Rightarrow> ivk g v [] s))
     | _ \<Rightarrow> (Inl Unmodelled, s))"

definition set_own :: "ref \<Rightarrow> string \<Rightarrow> jsprop \<Rightarrow> state \<Rightarrow> state" where
  "set_own r k p s =
     (case objs s r of
        None \<Rightarrow> s
      | Some ob \<Rightarrow> s\<lparr>objs := (objs s)(r \<mapsto> ob\<lparr>props := (props ob)(k \<mapsto> p)\<rparr>)\<rparr>)"

text \<open>\<^verbatim>\<open>v[k] = x\<close> in strict code (class bodies are strict): ECMA-262 10.1.9, OrdinarySet,
  where a failed [[Set]] throws a TypeError. A setter found on the chain runs with the object
  as receiver; a writable data property found on the chain, or no property at all, makes an
  own data property of the receiver.\<close>

definition assign :: "invoker \<Rightarrow> jsval \<Rightarrow> string \<Rightarrow> jsval \<Rightarrow> jsval comp" where
  "assign ivk v k x = (\<lambda>s.
     case v of
       VUndefined \<Rightarrow> (Inl (TypeError ''Cannot set properties of undefined''), s)
     | VNull \<Rightarrow> (Inl (TypeError ''Cannot set properties of null''), s)
     | VObj r \<Rightarrow>
         (case objs s r of
            None \<Rightarrow> (Inl Unmodelled, s)
          | Some ob \<Rightarrow>
              (case lookup_prop (objs s) r k of
                 Some (AccP g None e c) \<Rightarrow>
                   (Inl (TypeError ''Cannot set property which has only a getter''), s)
               | Some (AccP g (Some st) e c) \<Rightarrow> bnd (ivk st v [x]) (\<lambda>_. ret x) s
               | Some (DataP y w e c) \<Rightarrow>
                   if \<not> w then (Inl (TypeError ''Cannot assign to read only property''), s)
                   else (case props ob k of
                           Some (DataP y' w' e' c') \<Rightarrow> (Inr x, set_own r k (DataP x w' e' c') s)
                         | Some (AccP g' st' e' c') \<Rightarrow> (Inl Unmodelled, s)
                         | None \<Rightarrow>
                             if extensible ob
                             then (Inr x, set_own r k (DataP x True True True) s)
                             else (Inl (TypeError ''Cannot add property, object is not extensible''), s))
               | None \<Rightarrow>
                   if extensible ob
                   then (Inr x, set_own r k (DataP x True True True) s)
                   else (Inl (TypeError ''Cannot add property, object is not extensible''), s)))
     | VBool b \<Rightarrow> (Inl (TypeError ''Cannot create property on boolean''), s)
     | VNum n \<Rightarrow> (Inl (TypeError ''Cannot create property on number''), s)
     | VBigInt n \<Rightarrow> (Inl (TypeError ''Cannot create property on bigint''), s)
     | VStr y \<Rightarrow> (Inl (TypeError ''Cannot create property on string''), s)
     | VSymbol n \<Rightarrow> (Inl (TypeError ''Cannot create property on symbol''), s)
     | _ \<Rightarrow> (Inl Unmodelled, s))"

text \<open>\<^verbatim>\<open>v.m(...args)\<close>: the member is read, then called with \<open>v\<close> as receiver.\<close>

definition method_call :: "invoker \<Rightarrow> jsval \<Rightarrow> string \<Rightarrow> jsval list \<Rightarrow> jsval comp" where
  "method_call ivk v m args = bnd (get ivk v m) (\<lambda>f. call_value ivk f v args)"

text \<open>\<^verbatim>\<open>Object.getOwnPropertyDescriptor\<close>, \<^verbatim>\<open>Object.getPrototypeOf\<close> and reading a field of the
  descriptor a lookup produced. A lookup yields \<^verbatim>\<open>null\<close>, \<^verbatim>\<open>undefined\<close> or the own property.\<close>

datatype descriptor = DescNull | DescUndefined | Desc jsprop

definition getOwnPropertyDescriptor :: "jsval \<Rightarrow> string \<Rightarrow> descriptor comp" where
  "getOwnPropertyDescriptor v k = (\<lambda>s.
     case v of
       VUndefined \<Rightarrow> (Inl (TypeError ''Cannot convert undefined or null to object''), s)
     | VNull \<Rightarrow> (Inl (TypeError ''Cannot convert undefined or null to object''), s)
     | VObj r \<Rightarrow>
         (case objs s r of
            None \<Rightarrow> (Inl Unmodelled, s)
          | Some ob \<Rightarrow>
              (case props ob k of
                 None \<Rightarrow> (Inr DescUndefined, s)
               | Some p \<Rightarrow> (Inr (Desc p), s)))
     | _ \<Rightarrow> (Inl Unmodelled, s))"

definition getPrototypeOf :: "jsval \<Rightarrow> jsval comp" where
  "getPrototypeOf v = (\<lambda>s.
     case v of
       VUndefined \<Rightarrow> (Inl (TypeError ''Cannot convert undefined or null to object''), s)
     | VNull \<Rightarrow> (Inl (TypeError ''Cannot convert undefined or null to object''), s)
     | VObj r \<Rightarrow>
         (case objs s r of
            None \<Rightarrow> (Inl Unmodelled, s)
          | Some ob \<Rightarrow> (Inr (proto ob), s))
     | _ \<Rightarrow> (Inl Unmodelled, s))"

fun desc_get :: "descriptor \<Rightarrow> jsval comp" where
  "desc_get DescNull = throw (TypeError ''Cannot read properties of null'')"
| "desc_get DescUndefined = throw (TypeError ''Cannot read properties of undefined'')"
| "desc_get (Desc (AccP g st e c)) = ret (fn_value g)"
| "desc_get (Desc (DataP x w e c)) = ret VUndefined"

fun desc_set :: "descriptor \<Rightarrow> jsval comp" where
  "desc_set DescNull = throw (TypeError ''Cannot read properties of null'')"
| "desc_set DescUndefined = throw (TypeError ''Cannot read properties of undefined'')"
| "desc_set (Desc (AccP g st e c)) = ret (fn_value st)"
| "desc_set (Desc (DataP x w e c)) = ret VUndefined"

text \<open>\<^verbatim>\<open>Object.defineProperty(v, k, desc)\<close> for a descriptor object that holds at most a
  \<^verbatim>\<open>get\<close> and a \<^verbatim>\<open>set\<close> function, the only kind whenAttr builds (ECMA-262 10.1.6.3,
  ValidateAndApplyPropertyDescriptor). A new property takes the default attributes; on an
  existing property only the fields present in the descriptor change, and a property that is
  not configurable cannot change.\<close>

definition defineProperty :: "jsval \<Rightarrow> string \<Rightarrow> fn option \<Rightarrow> fn option \<Rightarrow> unit comp" where
  "defineProperty v k g st = (\<lambda>s.
     case v of
       VUndefined \<Rightarrow> (Inl (TypeError ''Object.defineProperty called on non-object''), s)
     | VNull \<Rightarrow> (Inl (TypeError ''Object.defineProperty called on non-object''), s)
     | VObj r \<Rightarrow>
         (case objs s r of
            None \<Rightarrow> (Inl Unmodelled, s)
          | Some ob \<Rightarrow>
              (case props ob k of
                 None \<Rightarrow>
                   if \<not> extensible ob
                   then (Inl (TypeError ''Cannot define property, object is not extensible''), s)
                   else if g = None \<and> st = None
                   then (Inr (), set_own r k (DataP VUndefined False False False) s)
                   else (Inr (), set_own r k (AccP g st False False) s)
               | Some cur \<Rightarrow>
                   if g = None \<and> st = None then (Inr (), s)
                   else (case cur of
                           DataP x w e c \<Rightarrow>
                             if \<not> c then (Inl (TypeError ''Cannot redefine property''), s)
                             else (Inr (), set_own r k (AccP g st e c) s)
                         | AccP g0 st0 e c \<Rightarrow>
                             if \<not> c
                             then (if (g \<noteq> None \<and> g \<noteq> g0) \<or> (st \<noteq> None \<and> st \<noteq> st0)
                                   then (Inl (TypeError ''Cannot redefine property''), s)
                                   else (Inr (), s))
                             else (Inr (), set_own r k
                                     (AccP (if g = None then g0 else g)
                                           (if st = None then st0 else st) e c) s))))
     | _ \<Rightarrow> (Inl Unmodelled, s))"

section \<open>CensorContext\<close>

fun the_string :: "jsval \<Rightarrow> string comp" where
  "the_string (VStr x) = ret x"
| "the_string v = throw Unmodelled"

fun the_fn :: "jsval \<Rightarrow> fn comp" where
  "the_fn (VFun f) = ret f"
| "the_fn v = throw Unmodelled"

fun the_obj :: "jsval \<Rightarrow> ref comp" where
  "the_obj (VObj r) = ret r"
| "the_obj v = throw Unmodelled"

definition typeCheck :: "jsval \<Rightarrow> string \<Rightarrow> unit comp" where
  "typeCheck obj typ =
     (if typeof obj \<noteq> typ
      then throw (TypeError (''Got '' @ typeof obj @ '' expected '' @ typ))
      else ret ())"

text \<open>\<^verbatim>\<open>new CensorContext(parent, name)\<close>; \<^verbatim>\<open>args\<close> and \<^verbatim>\<open>callback\<close> start undefined. An object
  enters the store when its constructor returns.\<close>

definition new_CensorContext :: "jsval \<Rightarrow> jsval \<Rightarrow> ref comp" where
  "new_CensorContext parent name =
     bnd (typeCheck name ''string'') (\<lambda>_.
     bnd (the_string name) (\<lambda>n s.
       (Inr (fresh s),
        s\<lparr>ctxs := (ctxs s)(fresh s \<mapsto>
              \<lparr>ctx_parent = parent, ctx_name = n, ctx_args = None, ctx_callback = VUndefined\<rparr>),
          fresh := Suc (fresh s)\<rparr>)))"

definition read_ctx :: "ref \<Rightarrow> CensorContext comp" where
  "read_ctx c = (\<lambda>s. case ctxs s c of None \<Rightarrow> (Inl Unmodelled, s) | Some x \<Rightarrow> (Inr x, s))"

definition set_args :: "ref \<Rightarrow> jsval list \<Rightarrow> unit comp" where
  "set_args c args = (\<lambda>s.
     case ctxs s c of
       None \<Rightarrow> (Inl Unmodelled, s)
     | Some x \<Rightarrow> (Inr (), s\<lparr>ctxs := (ctxs s)(c \<mapsto> x\<lparr>ctx_args := Some args\<rparr>)\<rparr>))"

definition set_callback :: "ref \<Rightarrow> jsval \<Rightarrow> unit comp" where
  "set_callback c f = (\<lambda>s.
     case ctxs s c of
       None \<Rightarrow> (Inl Unmodelled, s)
     | Some x \<Rightarrow> (Inr (), s\<lparr>ctxs := (ctxs s)(c \<mapsto> x\<lparr>ctx_callback := f\<rparr>)\<rparr>))"

text \<open>\<^verbatim>\<open>next(...args) { return this.callback(...args) }\<close>\<close>

definition CensorContext_next :: "invoker \<Rightarrow> ref \<Rightarrow> jsval list \<Rightarrow> jsval comp" where
  "CensorContext_next ivk c args =
     bnd (read_ctx c) (\<lambda>x. call_value ivk (ctx_callback x) (VCtx c) args)"

text \<open>\<^verbatim>\<open>pass() { return this.next(...this.args) }\<close>; spreading \<^verbatim>\<open>undefined\<close> throws.\<close>

definition CensorContext_pass :: "invoker \<Rightarrow> ref \<Rightarrow> jsval comp" where
  "CensorContext_pass ivk c =
     bnd (read_ctx c) (\<lambda>x.
       case ctx_args x of
         None \<Rightarrow> throw (TypeError ''undefined is not iterable'')
       | Some args \<Rightarrow> CensorContext_next ivk c args)"

section \<open>CensorObject\<close>

definition this_object :: "ref \<Rightarrow> jsval comp" where
  "this_object this = (\<lambda>s.
     case engs s this of None \<Rightarrow> (Inl Unmodelled, s) | Some e \<Rightarrow> (Inr (object e), s))"

text \<open>
  \<^verbatim>\<open>static getPropertyDescriptor(obj, name, maxdepth = 10)\<close>: the loop
  \<^verbatim>\<open>while (obj.constructor !== Object && depth <= maxdepth)\<close> with its early return, as a
  recursion on \<open>depth\<close>.
\<close>

function getPropertyDescriptor_loop ::
  "invoker \<Rightarrow> jsval \<Rightarrow> string \<Rightarrow> nat \<Rightarrow> nat \<Rightarrow> descriptor comp" where
  "getPropertyDescriptor_loop ivk obj name maxdepth depth =
     bnd (get ivk obj ''constructor'') (\<lambda>c.
       if c \<noteq> VFun FObject \<and> depth \<le> maxdepth
       then bnd (method_call ivk obj ''hasOwnProperty'' [VStr name]) (\<lambda>h.
              if truthy h then getOwnPropertyDescriptor obj name
              else bnd (getPrototypeOf obj) (\<lambda>p.
                     getPropertyDescriptor_loop ivk p name maxdepth (depth + 1)))
       else ret DescNull)"
  by pat_completeness auto
termination
  by (relation "measure (\<lambda>(ivk, obj, name, maxdepth, depth). Suc maxdepth - depth)") auto

definition getPropertyDescriptor :: "invoker \<Rightarrow> jsval \<Rightarrow> string \<Rightarrow> nat \<Rightarrow> descriptor comp" where
  "getPropertyDescriptor ivk obj name maxdepth = getPropertyDescriptor_loop ivk obj name maxdepth 0"


text \<open>\<^verbatim>\<open>call(name, ...args) { return this.object["_CENSOR_" + name](...args) }\<close>\<close>

definition CensorObject_call :: "invoker \<Rightarrow> ref \<Rightarrow> string \<Rightarrow> jsval list \<Rightarrow> jsval comp" where
  "CensorObject_call ivk this name args =
     bnd (this_object this) (\<lambda>obj. method_call ivk obj (''_CENSOR_'' @ name) args)"

definition getAttr :: "invoker \<Rightarrow> ref \<Rightarrow> string \<Rightarrow> jsval comp" where
  "getAttr ivk this name =
     bnd (this_object this) (\<lambda>obj. method_call ivk obj (''_CENSOR_get_'' @ name) [])"

definition setAttr :: "invoker \<Rightarrow> ref \<Rightarrow> string \<Rightarrow> jsval \<Rightarrow> jsval comp" where
  "setAttr ivk this name asgn =
     bnd (this_object this) (\<lambda>obj.
     bnd (method_call ivk obj (''_CENSOR_set_'' @ name) [asgn]) (\<lambda>_. ret VUndefined))"

definition whenCall :: "invoker \<Rightarrow> ref \<Rightarrow> jsval \<Rightarrow> jsval \<Rightarrow> jsval comp" where
  "whenCall ivk this name handle =
     bnd (typeCheck name ''string'') (\<lambda>_.
     bnd (the_string name) (\<lambda>n.
     bnd (this_object this) (\<lambda>obj.
     bnd (get ivk obj n) (\<lambda>m.
     bnd (typeCheck m ''function'') (\<lambda>_.
     bnd (typeCheck handle ''function'') (\<lambda>_.
     bnd (the_fn handle) (\<lambda>h.
     bnd (this_object this) (\<lambda>obj.
     bnd (method_call ivk obj ''hasOwnProperty'' [VStr (''_CENSOR_'' @ n)]) (\<lambda>own.
     bnd (if \<not> truthy own
          then bnd (this_object this) (\<lambda>obj.
               bnd (this_object this) (\<lambda>obj'.
               bnd (get ivk obj' n) (\<lambda>m'. assign ivk obj (''_CENSOR_'' @ n) m')))
          else ret VUndefined) (\<lambda>_.
     bnd (new_CensorContext (VEng this) name) (\<lambda>ctx.
     bnd (set_callback ctx (VFun (FCallCallback this n))) (\<lambda>_.
     bnd (this_object this) (\<lambda>obj.
     bnd (assign ivk obj n (VFun (FCallWrapper ctx h (is_async h)))) (\<lambda>_.
     ret (VEng this)))))))))))))))"

definition whenAttr :: "invoker \<Rightarrow> ref \<Rightarrow> jsval \<Rightarrow> jsval \<Rightarrow> jsval comp" where
  "whenAttr ivk this name handles =
     bnd (typeCheck name ''string'') (\<lambda>_.
     bnd (the_string name) (\<lambda>n.
     bnd (typeCheck handles ''object'') (\<lambda>_.
     bnd (this_object this) (\<lambda>obj.
     bnd (getPropertyDescriptor ivk obj n 10) (\<lambda>description.
     bnd (this_object this) (\<lambda>obj.
     bnd (desc_set description) (\<lambda>st.
     bnd (assign ivk obj (''_CENSOR_set_'' @ n) st) (\<lambda>_.
     bnd (this_object this) (\<lambda>obj.
     bnd (desc_get description) (\<lambda>gt.
     bnd (assign ivk obj (''_CENSOR_get_'' @ n) gt) (\<lambda>_.
     bnd (new_CensorContext (VEng this) name) (\<lambda>context.
     bnd (method_call ivk handles ''hasOwnProperty'' [VStr ''get'']) (\<lambda>hg.
     bnd (the_obj handles) (\<lambda>hs.
     bnd (method_call ivk handles ''hasOwnProperty'' [VStr ''set'']) (\<lambda>hs'.
     bnd (this_object this) (\<lambda>obj.
     bnd (defineProperty obj n
            (if truthy hg then Some (FAttrGet context this n hs) else None)
            (if truthy hs' then Some (FAttrSet context this n hs) else None)) (\<lambda>_.
     ret (VEng this))))))))))))))))))"

section \<open>CensorClass and the dispatcher\<close>

fun nth_arg :: "jsval list \<Rightarrow> nat \<Rightarrow> jsval" where
  "nth_arg [] i = VUndefined"
| "nth_arg (a # as) 0 = a"
| "nth_arg (a # as) (Suc i) = nth_arg as i"








section \<open>Running function values\<close>

text \<open>
  \<open>settled v\<close> is what a caller that awaits \<open>v\<close> observes: what the promise \<open>v\<close> settles to
  (a promise is never fulfilled with a promise, so unwrapping continues), or \<open>v\<close> itself when it
  is no promise; \<^verbatim>\<open>await v\<close> returns or throws it. An \<^verbatim>\<open>async\<close>
  function returns a promise: resolved with the returned value, rejected with what was thrown.
  Running out of fuel and leaving the fragment are not exceptions of the program and pass
  through.
\<close>

fun settled :: "jsval \<Rightarrow> error + jsval" where
  "settled (VFulfilled v) = settled v"
| "settled (VRejected e) = Inl e"
| "settled v = Inr v"

definition await :: "jsval \<Rightarrow> jsval comp" where
  "await v = (\<lambda>s. (settled v, s))"

fun resolve :: "jsval \<Rightarrow> jsval" where
  "resolve (VFulfilled v) = VFulfilled v"
| "resolve (VRejected e) = VRejected e"
| "resolve v = VFulfilled v"

fun is_promise :: "jsval \<Rightarrow> bool" where
  "is_promise (VFulfilled v) = True"
| "is_promise (VRejected e) = True"
| "is_promise v = False"

definition async :: "jsval comp \<Rightarrow> jsval comp" where
  "async m = (\<lambda>s.
     case m s of
       (Inr v, s') \<Rightarrow> (Inr (resolve v), s')
     | (Inl OutOfFuel, s') \<Rightarrow> (Inl OutOfFuel, s')
     | (Inl Unmodelled, s') \<Rightarrow> (Inl Unmodelled, s')
     | (Inl e, s') \<Rightarrow> (Inr (VRejected e), s'))"

type_synonym user_impl = "invoker \<Rightarrow> jsval \<Rightarrow> jsval list \<Rightarrow> jsval comp"

text \<open>
  One call of a function value; \<open>ivk\<close> runs the calls made inside the body. The code of a
  host or caller function is the entry of the table \<open>uf\<close>: it receives the invoker, its
  receiver and its arguments. Running the global \<^verbatim>\<open>Object\<close> and the replacement constructor of
  a class template is outside the fragment.
\<close>

definition apply_fn :: "invoker \<Rightarrow> (nat \<Rightarrow> user_impl) \<Rightarrow> invoker" where
  "apply_fn ivk uf f this args =
     (case f of
        FUser k n a \<Rightarrow> uf k ivk this args
      | FForeign k n a \<Rightarrow> uf k ivk this args
      | FObject \<Rightarrow> throw Unmodelled
      | FHasOwnProperty \<Rightarrow> hasOwnProperty this args
      | FCallCallback e n \<Rightarrow> CensorObject_call ivk e n args
      | FCallWrapper ctx handle a \<Rightarrow>
          if a
          then async (bnd (set_args ctx args) (\<lambda>_.
                      bnd (call_value ivk (VFun handle) VUndefined (VCtx ctx # args)) await))
          else bnd (set_args ctx args) (\<lambda>_.
               call_value ivk (VFun handle) VUndefined (VCtx ctx # args))
      | FAttrGet context e n hs \<Rightarrow>
          bnd (set_args context []) (\<lambda>_.
          bnd (set_callback context (VFun (FGetCallback e n))) (\<lambda>_.
          method_call ivk (VObj hs) ''get'' [VCtx context]))
      | FAttrSet context e n hs \<Rightarrow>
          bnd (set_args context [nth_arg args 0]) (\<lambda>_.
          bnd (set_callback context (VFun (FSetCallback e n))) (\<lambda>_.
          bnd (method_call ivk (VObj hs) ''set'' [VCtx context, nth_arg args 0]) (\<lambda>_.
          ret VUndefined)))
      | FGetCallback e n \<Rightarrow> getAttr ivk e n
      | FSetCallback e n \<Rightarrow> setAttr ivk e n (nth_arg args 0)
      | FGenFunc c \<Rightarrow> throw Unmodelled)"

text \<open>The interpreter: \<open>n\<close> bounds the depth of nested calls.\<close>

primrec invoke :: "nat \<Rightarrow> (nat \<Rightarrow> user_impl) \<Rightarrow> invoker" where
  "invoke 0 uf = (\<lambda>f this args. throw OutOfFuel)"
| "invoke (Suc n) uf = apply_fn (invoke n uf) uf"

section \<open>A small world to run the code in\<close>

text \<open>
  \<open>pass_handle\<close> is the handle \<^verbatim>\<open>(ctx, ...args) => ctx.pass()\<close>. The example heap holds
  \<^verbatim>\<open>Object.prototype\<close> (reference 0), the prototype of a class \<^verbatim>\<open>Account\<close> with a method
  \<^verbatim>\<open>m\<close> and an accessor \<^verbatim>\<open>x\<close> (reference 1) and one instance (reference 2); an engine for
  the instance is at reference 3. The accessor \<^verbatim>\<open>x\<close> reads and writes the data property
  \<^verbatim>\<open>_x\<close> of its receiver; the getter of the accessor \<^verbatim>\<open>tick\<close> stores 0 in \<^verbatim>\<open>_x\<close> of
  its receiver and returns the number 1. References 4 to 6 and 9 are records of attribute handles;
  reference 7 is an instance that owns a configurable accessor \<^verbatim>\<open>x\<close> itself, with its engine
  at 8.
\<close>

definition pass_handle :: user_impl where
  "pass_handle ivk this args =
     (case args of VCtx c # _ \<Rightarrow> CensorContext_pass ivk c | _ \<Rightarrow> throw Unmodelled)"

definition ex_uf :: "nat \<Rightarrow> user_impl" where
  "ex_uf k =
     (if k = 1 then (\<lambda>ivk this args. ret (VStr ''original''))
      else if k = 2 then (\<lambda>ivk this args. get ivk this ''_x'')
      else if k = 3 then (\<lambda>ivk this args. assign ivk this ''_x'' (nth_arg args 0))
      else if k = 4 then (\<lambda>ivk this args. ret (VFulfilled (VNum 1)))
      else if k = 10 then pass_handle
      else if k = 11 then (\<lambda>ivk this args. ret (VNum 42))
      else if k = 12 then (\<lambda>ivk this args. ret (nth_arg args 0))
      else if k = 13 then (\<lambda>ivk this args. ret (VFulfilled (VNum 2)))
      else if k = 14 then (\<lambda>ivk this args. ret (VBool False))
      else if k = 15 then (\<lambda>ivk this args. bnd (assign ivk this ''_x'' (VNum 0)) (\<lambda>_. ret (VNum 1)))
      else (\<lambda>ivk this args. throw Unmodelled))"

definition Object_prototype :: jsobj where
  "Object_prototype =
     \<lparr>props = [''constructor'' \<mapsto> DataP (VFun FObject) True False True,
               ''hasOwnProperty'' \<mapsto> DataP (VFun FHasOwnProperty) True False True],
      proto = VNull, extensible = True\<rparr>"

definition Account_prototype :: jsobj where
  "Account_prototype =
     \<lparr>props = [''constructor'' \<mapsto> DataP (VFun (FUser 0 ''Account'' False)) True False True,
               ''m'' \<mapsto> DataP (VFun (FUser 1 ''m'' False)) True False True,
               ''x'' \<mapsto> AccP (Some (FUser 2 ''get x'' False)) (Some (FUser 3 ''set x'' False))
                        False True,
               ''tick'' \<mapsto> AccP (Some (FUser 15 ''get tick'' False)) None False True],
      proto = VObj 0, extensible = True\<rparr>"

definition account :: jsobj where
  "account = \<lparr>props = [''_x'' \<mapsto> DataP (VNum 7) True True True], proto = VObj 1, extensible = True\<rparr>"

definition handles_get_set :: jsobj where
  "handles_get_set =
     \<lparr>props = [''get'' \<mapsto> DataP (VFun (FUser 10 ''get'' False)) True True True,
               ''set'' \<mapsto> DataP (VFun (FUser 10 ''set'' False)) True True True],
      proto = VObj 0, extensible = True\<rparr>"

definition handles_get :: jsobj where
  "handles_get =
     \<lparr>props = [''get'' \<mapsto> DataP (VFun (FUser 10 ''get'' False)) True True True],
      proto = VObj 0, extensible = True\<rparr>"

definition handles_const :: jsobj where
  "handles_const =
     \<lparr>props = [''get'' \<mapsto> DataP (VFun (FUser 11 ''get'' False)) True True True],
      proto = VObj 0, extensible = True\<rparr>"

definition handles_set :: jsobj where
  "handles_set =
     \<lparr>props = [''set'' \<mapsto> DataP (VFun (FUser 10 ''set'' False)) True True True],
      proto = VObj 0, extensible = True\<rparr>"

definition own_account :: jsobj where
  "own_account =
     \<lparr>props = [''_x'' \<mapsto> DataP (VNum 7) True True True,
               ''x'' \<mapsto> AccP (Some (FUser 2 ''get x'' False)) (Some (FUser 3 ''set x'' False))
                        False True],
      proto = VObj 1, extensible = True\<rparr>"

definition ex_state :: state where
  "ex_state =
     \<lparr>objs = [0 \<mapsto> Object_prototype, 1 \<mapsto> Account_prototype, 2 \<mapsto> account,
              4 \<mapsto> handles_get_set, 5 \<mapsto> handles_get, 6 \<mapsto> handles_const,
              7 \<mapsto> own_account, 9 \<mapsto> handles_set],
      ctxs = Map.empty, engs = [3 \<mapsto> \<lparr>object = VObj 2\<rparr>, 8 \<mapsto> \<lparr>object = VObj 7\<rparr>],
      clss = Map.empty, window = None, object_proto = 0, fresh = 10\<rparr>"

definition ex_h1 :: jsval where
  "ex_h1 = VFun (FUser 11 ''h1'' False)"

definition ex_h2 :: jsval where
  "ex_h2 = VFun (FUser 10 ''h2'' False)"




text \<open>A handle that returns the context it is given, registered on \<^verbatim>\<open>m\<close> and called twice; an
  async handle registered on \<^verbatim>\<open>m\<close>.\<close>

definition ex_c1 :: state where
  "ex_c1 = snd (whenCall (invoke 0 ex_uf) 3 (VStr ''m'') (VFun (FUser 12 ''h'' False)) ex_state)"

definition ex_c2 :: state where
  "ex_c2 = snd (method_call (invoke (Suc (Suc 0)) ex_uf) (VObj 2) ''m'' [VNum 1] ex_c1)"

definition ex_c3 :: state where
  "ex_c3 = snd (method_call (invoke (Suc (Suc 0)) ex_uf) (VObj 2) ''m'' [VNum 2] ex_c2)"

text \<open>Two registrations on the member \<^verbatim>\<open>hasOwnProperty\<close>, the first with a handle that
  returns \<^verbatim>\<open>false\<close>.\<close>

definition ex_hf :: jsval where
  "ex_hf = VFun (FUser 14 ''h1'' False)"



definition ex_a1 :: state where
  "ex_a1 = snd (whenCall (invoke 0 ex_uf) 3 (VStr ''m'') (VFun (FUser 13 ''h'' True)) ex_state)"

section \<open>Notions used to state the properties\<close>


definition own_desc :: "(ref \<rightharpoonup> jsobj) \<Rightarrow> jsval \<Rightarrow> string \<Rightarrow> jsprop option" where
  "own_desc h v k =
     (case v of
        VObj r \<Rightarrow> (case h r of Some ob \<Rightarrow> props ob k | None \<Rightarrow> None)
      | _ \<Rightarrow> None)"






definition ex_v1 :: state where
  "ex_v1 = snd (whenAttr (invoke 0 ex_uf) 8 (VStr ''x'') (VObj 6) ex_state)"

definition ex_v2 :: state where
  "ex_v2 = snd (whenAttr (invoke 0 ex_uf) 8 (VStr ''x'') (VObj 5) ex_v1)"

definition ex_w1 :: state where
  "ex_w1 = snd (whenAttr (invoke 0 ex_uf) 3 (VStr ''x'') (VObj 6) ex_state)"

definition ex_w2 :: state where
  "ex_w2 = snd (whenAttr (invoke 0 ex_uf) 3 (VStr ''x'') (VObj 5) ex_w1)"

definition ex_g1 :: state where
  "ex_g1 = snd (whenAttr (invoke 0 ex_uf) 8 (VStr ''x'') (VObj 5) ex_state)"

definition ex_g2 :: state where
  "ex_g2 = snd (assign (invoke (Suc 0) ex_uf) (VObj 7) ''x'' (VNum 9) ex_g1)"

definition ex_dp :: state where
  "ex_dp = snd (whenAttr (invoke 0 ex_uf) 3 (VStr ''_x'') (VObj 5) ex_state)"

definition ex_go :: state where
  "ex_go = snd (whenAttr (invoke 0 ex_uf) 3 (VStr ''x'') (VObj 5) ex_state)"

definition ex_so :: state where
  "ex_so = snd (whenAttr (invoke 0 ex_uf) 3 (VStr ''x'') (VObj 9) ex_state)"

section \<open>Executing the model\<close>

declare lookup_prop.simps [simp del]

lemma bnd_ret [simp]: "bnd (ret x) f = f x"
  by (simp add: bnd_def ret_def)

lemma bnd_throw [simp]: "bnd (throw e) f = throw e"
  by (simp add: bnd_def throw_def fun_eq_iff)

lemma bnd_apply:
  "bnd m f s = (case m s of (Inl e, s') \<Rightarrow> (Inl e, s') | (Inr x, s') \<Rightarrow> f x s')"
  by (simp add: bnd_def)

lemma typeof_function: "typeof v = ''function'' \<longleftrightarrow> (\<exists>f. v = VFun f)"
  by (cases v) simp_all

lemma typeof_string: "typeof v = ''string'' \<longleftrightarrow> (\<exists>x. v = VStr x)"
  by (cases v) simp_all

lemma call_value_VFun:
  "call_value ivk (VFun f) this args =
     (if f = FHasOwnProperty then hasOwnProperty this args else ivk f this args)"
  by (cases f) (simp_all add: call_value_def)

lemma lookup_own: "h r = Some ob \<Longrightarrow> props ob k = Some p \<Longrightarrow> lookup_prop h r k = Some p"
  by (simp add: lookup_prop.simps)

lemma lookup_own_eq:
  "h r = Some ob \<Longrightarrow> lookup_prop h r k = Some q \<Longrightarrow> props ob k = Some p \<Longrightarrow> q = p"
  by (simp add: lookup_prop.simps)

lemma lookup_None_own: "lookup_prop h r k = None \<Longrightarrow> h r = Some ob \<Longrightarrow> props ob k = None"
  by (simp add: lookup_prop.simps split: option.splits)

text \<open>A lookup of \<open>k\<close> does not see a change of an object that keeps its prototype and its
  own property \<open>k\<close>.\<close>

lemma lookup_upd_other:
  assumes "h t = Some ob" "proto ob' = proto ob" "props ob' k = props ob k"
  shows "lookup_prop (h(t \<mapsto> ob')) r k = lookup_prop h r k"
proof (induction r rule: less_induct)
  case (less r)
  have ih: "\<And>r'. r' < r \<Longrightarrow> lookup_prop (h(t \<mapsto> ob')) r' k = lookup_prop h r' k"
    by (rule less.IH)
  show ?case
    unfolding lookup_prop.simps[of _ r k]
    using assms by (simp add: ih split: option.split jsval.split)
qed

lemma lookup_upd_same:
  "props ob' k = Some p \<Longrightarrow> lookup_prop (h(t \<mapsto> ob')) t k = Some p"
  by (simp add: lookup_prop.simps)

lemmas exec = bnd_apply ret_def throw_def typeCheck_def this_object_def get_def assign_def
  method_call_def call_value_VFun hasOwnProperty_def set_own_def new_CensorContext_def
  set_callback_def set_args_def read_ctx_def lookup_upd_other lookup_upd_same

lemmas eval = whenCall_def whenAttr_def bnd_apply ret_def throw_def typeCheck_def this_object_def
  get_def assign_def method_call_def call_value_VFun hasOwnProperty_def set_own_def
  new_CensorContext_def set_callback_def set_args_def read_ctx_def lookup_prop.simps

lemmas ex_defs = ex_state_def account_def Account_prototype_def Object_prototype_def ex_uf_def
  handles_get_set_def handles_get_def handles_const_def handles_set_def own_account_def
  pass_handle_def ex_h1_def ex_h2_def ex_hf_def

lemma settled_not_promise: "settled v = Inr x \<Longrightarrow> \<not> is_promise x"
  by (induction v rule: settled.induct) auto

lemma settled_idem: "settled v = Inr x \<Longrightarrow> settled x = Inr x"
  by (induction v rule: settled.induct) auto

subsection \<open>One registration of a call handle\<close>

text \<open>
  The target is an object whose member \<open>n\<close> is found as a data property, whose
  \<^verbatim>\<open>hasOwnProperty\<close> is the built-in and whose shadow key, when it is not an own property,
  occurs nowhere on the prototype chain. A registration that returns has archived the member
  only if there was no own shadow entry, and has installed a wrapper around the context it
  allocated.
\<close>

lemma whenCall_step:
  assumes eng: "engs s e = Some \<lparr>object = VObj t\<rparr>"
    and tgt: "objs s t = Some ob"
    and member: "lookup_prop (objs s) t n = Some (DataP m w en c)"
    and hop: "lookup_prop (objs s) t ''hasOwnProperty''
                = Some (DataP (VFun FHasOwnProperty) w' en' c')"
    and shadow: "props ob (''_CENSOR_'' @ n) = None
                 \<Longrightarrow> lookup_prop (objs s) t (''_CENSOR_'' @ n) = None"
    and nm: "n \<noteq> ''hasOwnProperty''"
    and run: "whenCall ivk e (VStr n) h s = (Inr v, s')"
  shows "\<exists>f ob' e1 c1. h = VFun f \<and> v = VEng e \<and> engs s' = engs s \<and> objs s' t = Some ob'
     \<and> props ob' (''_CENSOR_'' @ n) =
         (case props ob (''_CENSOR_'' @ n) of
            None \<Rightarrow> Some (DataP m True True True) | Some p \<Rightarrow> Some p)
     \<and> props ob' n = Some (DataP (VFun (FCallWrapper (fresh s) f (is_async f))) True e1 c1)
     \<and> lookup_prop (objs s') t ''hasOwnProperty'' = lookup_prop (objs s) t ''hasOwnProperty''
     \<and> ctxs s' (fresh s) = Some \<lparr>ctx_parent = VEng e, ctx_name = n, ctx_args = None,
            ctx_callback = VFun (FCallCallback e n)\<rparr>
     \<and> fresh s' = Suc (fresh s)"
proof (cases "typeof h = ''function''")
  case False
  then have "isl (fst (whenCall ivk e (VStr n) h s))"
    using eng tgt member
    by (simp add: whenCall_def exec)
  with run show ?thesis by simp
next
  case True
  then obtain f where f: "h = VFun f" by (auto simp: typeof_function)
  show ?thesis
  proof (cases "props ob (''_CENSOR_'' @ n)")
    case None
    note sh = shadow[OF None]
    show ?thesis
      using run eng tgt member hop nm None sh unfolding f
      by (auto simp add: whenCall_def exec split: if_splits option.splits jsprop.splits
               dest: lookup_own_eq[of "objs s" t ob, OF tgt])
  next
    case (Some p)
    show ?thesis
      using run eng tgt member hop nm Some unfolding f
      by (auto simp add: whenCall_def exec split: if_splits option.splits jsprop.splits
               dest: lookup_own_eq[of "objs s" t ob, OF tgt])
  qed
qed

section \<open>Call interception\<close>






text \<open>
  C5 as stated fails: the context is allocated once, when \<^verbatim>\<open>whenCall\<close> runs, and the installed
  wrapper captures it. With a handle that returns the context it receives, two calls of the
  wrapped member return the same context (reference 10), and the second call has overwritten
  the \<^verbatim>\<open>args\<close> the first one stored.
\<close>

theorem whenCall_context_fresh_counterexample:
  "fst (method_call (invoke (Suc (Suc 0)) ex_uf) (VObj 2) ''m'' [VNum 1] ex_c1) = Inr (VCtx 10)
 \<and> fst (method_call (invoke (Suc (Suc 0)) ex_uf) (VObj 2) ''m'' [VNum 2] ex_c2) = Inr (VCtx 10)
 \<and> map_option ctx_args (ctxs ex_c2 10) = Some (Some [VNum 1])
 \<and> map_option ctx_args (ctxs ex_c3 10) = Some (Some [VNum 2])"
  unfolding ex_c3_def ex_c2_def ex_c1_def
  by (simp add: eval ex_defs apply_fn_def)


text \<open>
  C5, amended. A registration that returns has allocated exactly one context, at the reference
  that was fresh when it started, and has installed a wrapper that captures it: every call of
  that wrapper stores its arguments in this one context and passes it to the handle. The
  next allocation gets another reference, so different registrations have different contexts.
\<close>

theorem whenCall_context_per_registration:
  assumes eng: "engs s0 e = Some \<lparr>object = VObj t\<rparr>"
    and tgt: "objs s0 t = Some ob"
    and member: "lookup_prop (objs s0) t n = Some (DataP m w en c)"
    and hop: "lookup_prop (objs s0) t ''hasOwnProperty''
                = Some (DataP (VFun FHasOwnProperty) w' en' c')"
    and unused: "lookup_prop (objs s0) t (''_CENSOR_'' @ n) = None"
    and nm: "n \<noteq> ''hasOwnProperty''"
    and r1: "whenCall ivk e (VStr n) h s0 = (Inr v, s1)"
  shows "\<exists>f ob1 e1 c1.
      h = VFun f \<and> objs s1 t = Some ob1
    \<and> props ob1 n = Some (DataP (VFun (FCallWrapper (fresh s0) f (is_async f))) True e1 c1)
    \<and> ctxs s1 (fresh s0) = Some \<lparr>ctx_parent = VEng e, ctx_name = n, ctx_args = None,
            ctx_callback = VFun (FCallCallback e n)\<rparr>
    \<and> fresh s1 = Suc (fresh s0)
    \<and> (\<forall>j uf this args.
          invoke (Suc j) uf (FCallWrapper (fresh s0) f (is_async f)) this args
            = (if is_async f
               then async (bnd (set_args (fresh s0) args) (\<lambda>_.
                      bnd (call_value (invoke j uf) (VFun f) VUndefined (VCtx (fresh s0) # args)) await))
               else bnd (set_args (fresh s0) args) (\<lambda>_.
                      call_value (invoke j uf) (VFun f) VUndefined (VCtx (fresh s0) # args))))"
proof -
  have own0: "props ob (''_CENSOR_'' @ n) = None"
    using unused tgt by (rule lookup_None_own)
  from whenCall_step[OF eng tgt member hop _ nm r1] unused
  obtain f ob1 e1 c1 where
    1: "h = VFun f" "objs s1 t = Some ob1"
       "props ob1 n = Some (DataP (VFun (FCallWrapper (fresh s0) f (is_async f))) True e1 c1)"
       "ctxs s1 (fresh s0) = Some \<lparr>ctx_parent = VEng e, ctx_name = n, ctx_args = None,
            ctx_callback = VFun (FCallCallback e n)\<rparr>"
       "fresh s1 = Suc (fresh s0)"
    by (auto simp: own0[simplified])
  have run: "invoke (Suc j) uf (FCallWrapper (fresh s0) f (is_async f)) this args
            = (if is_async f
               then async (bnd (set_args (fresh s0) args) (\<lambda>_.
                      bnd (call_value (invoke j uf) (VFun f) VUndefined (VCtx (fresh s0) # args)) await))
               else bnd (set_args (fresh s0) args) (\<lambda>_.
                      call_value (invoke j uf) (VFun f) VUndefined (VCtx (fresh s0) # args)))"
    for j uf this args
    by (simp add: apply_fn_def)
  show ?thesis using 1 run by blast
qed

theorem whenCall_context_per_registration_witness:
  "\<exists>f ob1 e1 c1.
      VFun (FUser 12 ''h'' False) = VFun f \<and> objs ex_c1 2 = Some ob1
    \<and> props ob1 ''m'' = Some (DataP (VFun (FCallWrapper (fresh ex_state) f (is_async f))) True e1 c1)
    \<and> ctxs ex_c1 (fresh ex_state) = Some \<lparr>ctx_parent = VEng 3, ctx_name = ''m'', ctx_args = None,
            ctx_callback = VFun (FCallCallback 3 ''m'')\<rparr>
    \<and> fresh ex_c1 = Suc (fresh ex_state)
    \<and> (\<forall>j uf this args.
          invoke (Suc j) uf (FCallWrapper (fresh ex_state) f (is_async f)) this args
            = (if is_async f
               then async (bnd (set_args (fresh ex_state) args) (\<lambda>_.
                      bnd (call_value (invoke j uf) (VFun f) VUndefined
                             (VCtx (fresh ex_state) # args)) await))
               else bnd (set_args (fresh ex_state) args) (\<lambda>_.
                      call_value (invoke j uf) (VFun f) VUndefined
                        (VCtx (fresh ex_state) # args))))"
proof -
  have eng: "engs ex_state 3 = Some \<lparr>object = VObj 2\<rparr>"
    by (simp add: ex_defs)
  have tgt: "objs ex_state 2 = Some account"
    by (simp add: ex_defs)
  have member: "lookup_prop (objs ex_state) 2 ''m''
      = Some (DataP (VFun (FUser 1 ''m'' False)) True False True)"
    by (simp add: ex_defs lookup_prop.simps)
  have hop: "lookup_prop (objs ex_state) 2 ''hasOwnProperty''
      = Some (DataP (VFun FHasOwnProperty) True False True)"
    by (simp add: ex_defs lookup_prop.simps)
  have unused: "lookup_prop (objs ex_state) 2 (''_CENSOR_'' @ ''m'') = None"
    by (simp add: ex_defs lookup_prop.simps)
  have nm: "''m'' \<noteq> ''hasOwnProperty''"
    by simp
  have r1: "whenCall (invoke 0 ex_uf) 3 (VStr ''m'') (VFun (FUser 12 ''h'' False)) ex_state
      = (Inr (VEng 3), ex_c1)"
    unfolding ex_c1_def by (simp add: eval ex_defs)
  show ?thesis
    by (rule whenCall_context_per_registration[OF eng tgt member hop unused nm r1])
qed

text \<open>
  C9 as stated fails when the member is an accessor: the second check reads
  \<^verbatim>\<open>this.object[name]\<close>, which runs the getter. The getter of \<^verbatim>\<open>tick\<close> on the example prototype
  sets \<^verbatim>\<open>this._x\<close> to 0 and returns a number, so the registration raises its type error and the
  target has changed: its \<^verbatim>\<open>_x\<close> was 7 and is 0.
\<close>

theorem whenCall_failure_getter_counterexample:
  "own_desc (objs ex_state) (VObj 2) ''_x'' = Some (DataP (VNum 7) True True True)
 \<and> fst (whenCall (invoke (Suc 0) ex_uf) 3 (VStr ''tick'') ex_h1 ex_state)
     = Inl (TypeError ''Got number expected function'')
 \<and> own_desc (objs (snd (whenCall (invoke (Suc 0) ex_uf) 3 (VStr ''tick'') ex_h1 ex_state)))
       (VObj 2) ''_x''
     = Some (DataP (VNum 0) True True True)"
  by (simp add: eval own_desc_def ex_defs apply_fn_def)

text \<open>
  C9, amended. The three type checks of \<^verbatim>\<open>whenCall\<close> come before every write of \<^verbatim>\<open>whenCall\<close>.
  When \<open>name\<close> is no string the call raises in the store it started in. When reading the member
  returns \<open>m\<close> in the store \<open>s1\<close> and \<open>m\<close> or the handle is not a function, the call raises in
  \<open>s1\<close>: nothing is written after the read, no archive entry and no member slot. The read
  itself changes nothing unless it runs a getter, so then the whole store, and with it the
  target, is unchanged; when it runs a getter, the store is the one the getter leaves.
\<close>

theorem whenCall_failure_atomic:
  "(typeof name \<noteq> ''string'' \<longrightarrow>
      whenCall ivk e name handle s
        = (Inl (TypeError (''Got '' @ typeof name @ '' expected string'')), s))
 \<and> (\<forall>n m s1. name = VStr n \<and> bnd (this_object e) (\<lambda>obj. get ivk obj n) s = (Inr m, s1)
        \<and> typeof m \<noteq> ''function'' \<longrightarrow>
      whenCall ivk e name handle s
        = (Inl (TypeError (''Got '' @ typeof m @ '' expected function'')), s1))
 \<and> (\<forall>n m s1. name = VStr n \<and> bnd (this_object e) (\<lambda>obj. get ivk obj n) s = (Inr m, s1)
        \<and> typeof m = ''function'' \<and> typeof handle \<noteq> ''function'' \<longrightarrow>
      whenCall ivk e name handle s
        = (Inl (TypeError (''Got '' @ typeof handle @ '' expected function'')), s1))
 \<and> (\<forall>n m s1 t. bnd (this_object e) (\<lambda>obj. get ivk obj n) s = (Inr m, s1)
        \<and> engs s e = Some \<lparr>object = VObj t\<rparr>
        \<and> (\<forall>g st en c. lookup_prop (objs s) t n \<noteq> Some (AccP (Some g) st en c)) \<longrightarrow> s1 = s)"
proof (intro conjI allI impI)
  assume "typeof name \<noteq> ''string''"
  then show "whenCall ivk e name handle s
        = (Inl (TypeError (''Got '' @ typeof name @ '' expected string'')), s)"
    by (simp add: whenCall_def bnd_apply typeCheck_def throw_def)
next
  fix n m s1
  assume a: "name = VStr n \<and> bnd (this_object e) (\<lambda>obj. get ivk obj n) s = (Inr m, s1)
        \<and> typeof m \<noteq> ''function''"
  then obtain obj s' where g: "this_object e s = (Inr obj, s')" "get ivk obj n s' = (Inr m, s1)"
    by (auto simp: bnd_apply split: prod.splits sum.splits)
  show "whenCall ivk e name handle s
        = (Inl (TypeError (''Got '' @ typeof m @ '' expected function'')), s1)"
    using a by (simp add: whenCall_def bnd_apply typeCheck_def throw_def ret_def g)
next
  fix n m s1
  assume a: "name = VStr n \<and> bnd (this_object e) (\<lambda>obj. get ivk obj n) s = (Inr m, s1)
        \<and> typeof m = ''function'' \<and> typeof handle \<noteq> ''function''"
  then obtain obj s' where g: "this_object e s = (Inr obj, s')" "get ivk obj n s' = (Inr m, s1)"
    by (auto simp: bnd_apply split: prod.splits sum.splits)
  show "whenCall ivk e name handle s
        = (Inl (TypeError (''Got '' @ typeof handle @ '' expected function'')), s1)"
    using a by (simp add: whenCall_def bnd_apply typeCheck_def throw_def ret_def g)
next
  fix n m s1 t
  assume a: "bnd (this_object e) (\<lambda>obj. get ivk obj n) s = (Inr m, s1)
        \<and> engs s e = Some \<lparr>object = VObj t\<rparr>
        \<and> (\<forall>g st en c. lookup_prop (objs s) t n \<noteq> Some (AccP (Some g) st en c))"
  then show "s1 = s"
    by (auto simp add: bnd_apply this_object_def get_def
          split: option.splits jsprop.splits)
qed

theorem whenCall_failure_atomic_witness:
  "whenCall (invoke 0 ex_uf) 3 (VNum 5) ex_h1 ex_state
     = (Inl (TypeError ''Got number expected string''), ex_state)
 \<and> whenCall (invoke 0 ex_uf) 3 (VStr ''zzz'') ex_h1 ex_state
     = (Inl (TypeError ''Got undefined expected function''), ex_state)
 \<and> whenCall (invoke 0 ex_uf) 3 (VStr ''m'') (VNum 1) ex_state
     = (Inl (TypeError ''Got number expected function''), ex_state)
 \<and> whenCall (invoke (Suc 0) ex_uf) 3 (VStr ''tick'') ex_h1 ex_state
     = (Inl (TypeError ''Got number expected function''),
        snd (bnd (this_object 3) (\<lambda>obj. get (invoke (Suc 0) ex_uf) obj ''tick'') ex_state))"
proof -
  have rd1: "bnd (this_object 3) (\<lambda>obj. get (invoke 0 ex_uf) obj ''zzz'') ex_state
      = (Inr VUndefined, ex_state)"
    by (simp add: eval ex_defs)
  have rd2: "bnd (this_object 3) (\<lambda>obj. get (invoke 0 ex_uf) obj ''m'') ex_state
      = (Inr (VFun (FUser 1 ''m'' False)), ex_state)"
    by (simp add: eval ex_defs)
  have a: "whenCall (invoke 0 ex_uf) 3 (VNum 5) ex_h1 ex_state
     = (Inl (TypeError ''Got number expected string''), ex_state)"
    using whenCall_failure_atomic[of "VNum 5" "invoke 0 ex_uf" 3 ex_h1 ex_state] by simp
  have b: "whenCall (invoke 0 ex_uf) 3 (VStr ''zzz'') ex_h1 ex_state
     = (Inl (TypeError ''Got undefined expected function''), ex_state)"
    using whenCall_failure_atomic[of "VStr ''zzz''" "invoke 0 ex_uf" 3 ex_h1 ex_state] rd1
    by simp
  have c: "whenCall (invoke 0 ex_uf) 3 (VStr ''m'') (VNum 1) ex_state
     = (Inl (TypeError ''Got number expected function''), ex_state)"
    using whenCall_failure_atomic[of "VStr ''m''" "invoke 0 ex_uf" 3 "VNum 1" ex_state] rd2
    by simp
  have rd3: "VStr ''tick'' = VStr ''tick''
      \<and> bnd (this_object 3) (\<lambda>obj. get (invoke (Suc 0) ex_uf) obj ''tick'') ex_state
        = (Inr (VNum 1),
           snd (bnd (this_object 3) (\<lambda>obj. get (invoke (Suc 0) ex_uf) obj ''tick'') ex_state))
      \<and> typeof (VNum 1) \<noteq> ''function''"
    by (simp add: eval ex_defs apply_fn_def)
  have d: "whenCall (invoke (Suc 0) ex_uf) 3 (VStr ''tick'') ex_h1 ex_state
     = (Inl (TypeError ''Got number expected function''),
        snd (bnd (this_object 3) (\<lambda>obj. get (invoke (Suc 0) ex_uf) obj ''tick'') ex_state))"
    using whenCall_failure_atomic[of "VStr ''tick''" "invoke (Suc 0) ex_uf" 3 ex_h1 ex_state,
        THEN conjunct2, THEN conjunct1, THEN spec, THEN spec, THEN spec, THEN mp, OF rd3]
    by simp
  show ?thesis using a b c d by blast
qed

text \<open>
  C7. When the handle is an async function, the member installed by a registration that returns
  is an async function too. In the model of promises by their settlement: whenever the handle,
  called with the context and the arguments, returns \<open>hr\<close>, the wrapper returns a promise that
  settles exactly as \<open>hr\<close> does, so a caller that awaits the wrapped member observes the
  resolution of the handle.
\<close>

theorem whenCall_async_wrapper:
  assumes eng: "engs s0 e = Some \<lparr>object = VObj t\<rparr>"
    and tgt: "objs s0 t = Some ob"
    and member: "lookup_prop (objs s0) t n = Some (DataP m w en c)"
    and hop: "lookup_prop (objs s0) t ''hasOwnProperty''
                = Some (DataP (VFun FHasOwnProperty) w' en' c')"
    and unused: "lookup_prop (objs s0) t (''_CENSOR_'' @ n) = None"
    and nm: "n \<noteq> ''hasOwnProperty''"
    and asy: "is_async f"
    and r1: "whenCall ivk e (VStr n) (VFun f) s0 = (Inr v, s1)"
  shows "\<exists>ob1 e1 c1 W.
      objs s1 t = Some ob1 \<and> props ob1 n = Some (DataP (VFun W) True e1 c1) \<and> is_async W
    \<and> (\<forall>j uf this args s sa hr sb.
          set_args (fresh s0) args s = (Inr (), sa)
        \<and> call_value (invoke j uf) (VFun f) VUndefined (VCtx (fresh s0) # args) sa = (Inr hr, sb)
        \<and> settled hr \<noteq> Inl OutOfFuel \<and> settled hr \<noteq> Inl Unmodelled
        \<longrightarrow> (\<exists>p. invoke (Suc j) uf W this args s = (Inr p, sb)
                 \<and> is_promise p \<and> settled p = settled hr))"
proof -
  have own0: "props ob (''_CENSOR_'' @ n) = None"
    using unused tgt by (rule lookup_None_own)
  from whenCall_step[OF eng tgt member hop _ nm r1] unused asy
  obtain ob1 e1 c1 where
    1: "objs s1 t = Some ob1"
       "props ob1 n = Some (DataP (VFun (FCallWrapper (fresh s0) f True)) True e1 c1)"
    by (auto simp: own0[simplified])
  have run: "\<exists>p. invoke (Suc j) uf (FCallWrapper (fresh s0) f True) this args s = (Inr p, sb)
                 \<and> is_promise p \<and> settled p = settled hr"
    if a: "set_args (fresh s0) args s = (Inr (), sa)"
      "call_value (invoke j uf) (VFun f) VUndefined (VCtx (fresh s0) # args) sa = (Inr hr, sb)"
      "settled hr \<noteq> Inl OutOfFuel" "settled hr \<noteq> Inl Unmodelled"
    for j uf this args s sa hr sb
  proof (cases "settled hr")
    case (Inr x)
    then show ?thesis
      using a settled_idem[OF Inr] settled_not_promise[OF Inr]
      by (cases x) (simp_all add: apply_fn_def async_def bnd_apply await_def)
  next
    case (Inl er)
    then show ?thesis
      using a by (cases er) (simp_all add: apply_fn_def async_def bnd_apply await_def)
  qed
  show ?thesis using 1 run by (intro exI[of _ ob1] exI[of _ e1] exI[of _ c1]
        exI[of _ "FCallWrapper (fresh s0) f True"]) auto
qed

theorem whenCall_async_wrapper_witness:
  "\<exists>W p sb.
      lookup_prop (objs ex_a1) 2 ''m'' = Some (DataP (VFun W) True True True) \<and> is_async W
    \<and> invoke (Suc (Suc 0)) ex_uf W (VObj 2) [] ex_a1 = (Inr p, sb)
    \<and> is_promise p \<and> settled p = Inr (VNum 2)"
proof -
  have eng: "engs ex_state 3 = Some \<lparr>object = VObj 2\<rparr>"
    by (simp add: ex_defs)
  have tgt: "objs ex_state 2 = Some account"
    by (simp add: ex_defs)
  have member: "lookup_prop (objs ex_state) 2 ''m''
      = Some (DataP (VFun (FUser 1 ''m'' False)) True False True)"
    by (simp add: ex_defs lookup_prop.simps)
  have hop: "lookup_prop (objs ex_state) 2 ''hasOwnProperty''
      = Some (DataP (VFun FHasOwnProperty) True False True)"
    by (simp add: ex_defs lookup_prop.simps)
  have unused: "lookup_prop (objs ex_state) 2 (''_CENSOR_'' @ ''m'') = None"
    by (simp add: ex_defs lookup_prop.simps)
  have nm: "''m'' \<noteq> ''hasOwnProperty''"
    by simp
  have asy: "is_async (FUser 13 ''h'' True)"
    by simp
  have r1: "whenCall (invoke 0 ex_uf) 3 (VStr ''m'') (VFun (FUser 13 ''h'' True)) ex_state
      = (Inr (VEng 3), ex_a1)"
    unfolding ex_a1_def by (simp add: eval ex_defs)
  from whenCall_async_wrapper[OF eng tgt member hop unused nm asy r1]
  obtain ob1 e1 c1 W where
    w: "objs ex_a1 2 = Some ob1" "props ob1 ''m'' = Some (DataP (VFun W) True e1 c1)" "is_async W"
    and run: "\<forall>j uf this args s sa hr sb.
          set_args (fresh ex_state) args s = (Inr (), sa)
        \<and> call_value (invoke j uf) (VFun (FUser 13 ''h'' True)) VUndefined
            (VCtx (fresh ex_state) # args) sa = (Inr hr, sb)
        \<and> settled hr \<noteq> Inl OutOfFuel \<and> settled hr \<noteq> Inl Unmodelled
        \<longrightarrow> (\<exists>p. invoke (Suc j) uf W this args s = (Inr p, sb)
                 \<and> is_promise p \<and> settled p = settled hr)"
    by (elim exE conjE) (rule that)
  have slot: "props ob1 ''m'' = Some (DataP (VFun W) True True True)"
    using w(1,2) unfolding ex_a1_def by (auto simp add: eval ex_defs)
  have sa: "set_args (fresh ex_state) [] ex_a1 = (Inr (), snd (set_args (fresh ex_state) [] ex_a1))"
    unfolding ex_a1_def by (simp add: eval ex_defs)
  have hr: "call_value (invoke (Suc 0) ex_uf) (VFun (FUser 13 ''h'' True)) VUndefined
       (VCtx (fresh ex_state) # []) (snd (set_args (fresh ex_state) [] ex_a1))
        = (Inr (VFulfilled (VNum 2)), snd (set_args (fresh ex_state) [] ex_a1))"
    by (simp add: call_value_VFun apply_fn_def ex_uf_def ret_def)
  have n1: "settled (VFulfilled (VNum 2)) \<noteq> Inl OutOfFuel"
    and n2: "settled (VFulfilled (VNum 2)) \<noteq> Inl Unmodelled"
    by simp_all
  from run[rule_format, OF conjI[OF sa conjI[OF hr conjI[OF n1 n2]]]] obtain p where
    p: "invoke (Suc (Suc 0)) ex_uf W (VObj 2) [] ex_a1 = (Inr p, snd (set_args (fresh ex_state) [] ex_a1))"
      "is_promise p" "settled p = Inr (VNum 2)"
    by auto
  have "lookup_prop (objs ex_a1) 2 ''m'' = Some (DataP (VFun W) True True True)"
    using w(1) slot by (simp add: lookup_own)
  then show ?thesis using w(3) p by blast
qed

section \<open>The dispatcher\<close>





section \<open>The descriptor lookup\<close>

declare getPropertyDescriptor_loop.simps [simp del]







lemmas eval_attr = eval getPropertyDescriptor_def getPropertyDescriptor_loop.simps
  getOwnPropertyDescriptor_def getPrototypeOf_def defineProperty_def own_desc_def fn_value_def





section \<open>Attribute interception\<close>

lemma whenAttr_step:
  assumes eng: "engs s e = Some \<lparr>object = VObj t\<rparr>"
    and tgt: "objs s t = Some ob"
    and found: "getPropertyDescriptor ivk (VObj t) n 10 s = (Inr (Desc d), s)"
    and noown: "props ob n = None"
    and unused_set: "lookup_prop (objs s) t (''_CENSOR_set_'' @ n) = None"
    and unused_get: "lookup_prop (objs s) t (''_CENSOR_get_'' @ n) = None"
    and hobj: "objs s hs = Some hob" "hs \<noteq> t"
    and hop: "lookup_prop (objs s) hs ''hasOwnProperty''
                = Some (DataP (VFun FHasOwnProperty) w' en' c')"
    and run: "whenAttr ivk e (VStr n) (VObj hs) s = (Inr v, s')"
  shows "\<exists>ob'. objs s' t = Some ob'
     \<and> props ob' n = Some
          (if props hob ''get'' = None \<and> props hob ''set'' = None
           then DataP VUndefined False False False
           else AccP (if props hob ''get'' \<noteq> None then Some (FAttrGet (fresh s) e n hs) else None)
                     (if props hob ''set'' \<noteq> None then Some (FAttrSet (fresh s) e n hs) else None)
                     False False)
     \<and> lookup_prop (objs s') t n = props ob' n"
proof -
  have os: "props ob (''_CENSOR_set_'' @ n) = None"
    using unused_set tgt by (rule lookup_None_own)
  have og: "props ob (''_CENSOR_get_'' @ n) = None"
    using unused_get tgt by (rule lookup_None_own)
  show ?thesis
    using run eng tgt found noown unused_set unused_get hobj hop os og
    by (cases d)
       (auto simp add: whenAttr_def exec defineProperty_def lookup_own
          split: if_splits option.splits)
qed

text \<open>
  C3 fails on the code: \<^verbatim>\<open>whenAttr\<close> assigns both shadow entries on every registration, without
  the \<^verbatim>\<open>hasOwnProperty\<close> guard that \<^verbatim>\<open>whenCall\<close> has. The instance 7 owns a configurable accessor
  \<^verbatim>\<open>x\<close> whose getter returns 7. After a first registration (a handle that returns 42) the
  archive holds the original getter; after a second registration (a handle that passes
  through) the archive holds the wrapper of the first registration, and reading \<^verbatim>\<open>x\<close> through
  the pass-through of the second handle yields 42, not 7.
\<close>

theorem whenAttr_overwrites_archive:
  "fst (whenAttr (invoke 0 ex_uf) 8 (VStr ''x'') (VObj 6) ex_state) = Inr (VEng 8)
 \<and> own_desc (objs ex_v1) (VObj 7) ''_CENSOR_get_x''
      = Some (DataP (VFun (FUser 2 ''get x'' False)) True True True)
 \<and> fst (whenAttr (invoke 0 ex_uf) 8 (VStr ''x'') (VObj 5) ex_v1) = Inr (VEng 8)
 \<and> own_desc (objs ex_v2) (VObj 7) ''_CENSOR_get_x''
      = Some (DataP (VFun (FAttrGet 10 8 ''x'' 6)) True True True)
 \<and> fst (get (invoke (Suc 0) ex_uf) (VObj 7) ''x'' ex_state) = Inr (VNum 7)
 \<and> fst (get (invoke (Suc (Suc (Suc (Suc (Suc 0))))) ex_uf) (VObj 7) ''x'' ex_v2) = Inr (VNum 42)"
  unfolding ex_v2_def ex_v1_def
  by (simp add: eval_attr ex_defs apply_fn_def CensorContext_pass_def CensorContext_next_def
        getAttr_def)

text \<open>On an instance whose accessor lives on the prototype the second registration overwrites
  the archive as well, and then raises: the property the first registration defined is not
  configurable.\<close>

lemma whenAttr_second_registration_raises:
  "fst (whenAttr (invoke 0 ex_uf) 3 (VStr ''x'') (VObj 6) ex_state) = Inr (VEng 3)
 \<and> own_desc (objs ex_w1) (VObj 2) ''_CENSOR_get_x''
      = Some (DataP (VFun (FUser 2 ''get x'' False)) True True True)
 \<and> fst (whenAttr (invoke 0 ex_uf) 3 (VStr ''x'') (VObj 5) ex_w1)
      = Inl (TypeError ''Cannot redefine property'')
 \<and> own_desc (objs ex_w2) (VObj 2) ''_CENSOR_get_x''
      = Some (DataP (VFun (FAttrGet 10 3 ''x'' 6)) True True True)"
  unfolding ex_w2_def ex_w1_def
  by (simp add: eval_attr ex_defs)

text \<open>
  C6 fails on the code: when the lookup yields \<^verbatim>\<open>null\<close>, \<^verbatim>\<open>description["set"]\<close> raises a
  TypeError, so the registration does not complete and no placeholder is stored. The instance
  2 has no property \<^verbatim>\<open>y\<close> on its chain.
\<close>

theorem whenAttr_lookup_none_raises:
  "getPropertyDescriptor (invoke 0 ex_uf) (VObj 2) ''y'' 10 ex_state = (Inr DescNull, ex_state)
 \<and> whenAttr (invoke 0 ex_uf) 3 (VStr ''y'') (VObj 5) ex_state
      = (Inl (TypeError ''Cannot read properties of null''), ex_state)"
  by (simp add: eval_attr ex_defs)

text \<open>The empty placeholder the claim describes is what the code stores when the lookup finds
  a data descriptor, which has no \<^verbatim>\<open>get\<close> and no \<^verbatim>\<open>set\<close>: for the data property \<^verbatim>\<open>_x\<close> of
  the instance 2 the registration returns, the archive holds \<^verbatim>\<open>undefined\<close>, and a read through
  a handle that passes through raises at the pass-through.\<close>

lemma whenAttr_data_descriptor_placeholder:
  "fst (whenAttr (invoke 0 ex_uf) 3 (VStr ''_x'') (VObj 5) ex_state) = Inr (VEng 3)
 \<and> own_desc (objs ex_dp) (VObj 2) ''_CENSOR_get__x'' = Some (DataP VUndefined True True True)
 \<and> fst (get (invoke (Suc (Suc (Suc (Suc 0)))) ex_uf) (VObj 2) ''_x'' ex_dp)
      = Inl (TypeError ''is not a function'')"
  unfolding ex_dp_def
  by (simp add: eval_attr ex_defs apply_fn_def CensorContext_pass_def CensorContext_next_def
        getAttr_def call_value_def)

text \<open>
  C10 as stated fails when the target itself owns the accessor: \<^verbatim>\<open>Object.defineProperty\<close>
  changes only the fields present in the descriptor, so with a record that has only \<^verbatim>\<open>get\<close>
  the own property keeps its original setter. The instance 7 owns \<^verbatim>\<open>x\<close>; after the
  registration an assignment to \<^verbatim>\<open>x\<close> still runs the original setter, which stores 9 in
  \<^verbatim>\<open>_x\<close>.
\<close>

theorem whenAttr_keeps_own_setter_counterexample:
  "fst (whenAttr (invoke 0 ex_uf) 8 (VStr ''x'') (VObj 5) ex_state) = Inr (VEng 8)
 \<and> own_desc (objs ex_state) (VObj 5) ''set'' = None
 \<and> own_desc (objs ex_g1) (VObj 7) ''x''
      = Some (AccP (Some (FAttrGet 10 8 ''x'' 5)) (Some (FUser 3 ''set x'' False)) False True)
 \<and> own_desc (objs ex_g1) (VObj 7) ''_x'' = Some (DataP (VNum 7) True True True)
 \<and> fst (assign (invoke (Suc 0) ex_uf) (VObj 7) ''x'' (VNum 9) ex_g1) = Inr (VNum 9)
 \<and> own_desc (objs ex_g2) (VObj 7) ''_x'' = Some (DataP (VNum 9) True True True)"
  unfolding ex_g2_def ex_g1_def
  by (simp add: eval_attr ex_defs apply_fn_def)

text \<open>
  C10, amended. When the target does not own the property before the registration (the
  accessor was found on a prototype), the property defined by a registration that returns has
  exactly the accessors present in \<open>handles\<close>. With only \<^verbatim>\<open>get\<close> it has no setter, and an
  assignment raises a TypeError without running any setter and without changing the store;
  with only \<^verbatim>\<open>set\<close> it has no getter, and a read yields \<^verbatim>\<open>undefined\<close> without running the
  original getter.
\<close>

theorem whenAttr_defines_given_accessors:
  assumes eng: "engs s e = Some \<lparr>object = VObj t\<rparr>"
    and tgt: "objs s t = Some ob"
    and found: "getPropertyDescriptor ivk (VObj t) n 10 s = (Inr (Desc d), s)"
    and noown: "props ob n = None"
    and unused_set: "lookup_prop (objs s) t (''_CENSOR_set_'' @ n) = None"
    and unused_get: "lookup_prop (objs s) t (''_CENSOR_get_'' @ n) = None"
    and hobj: "objs s hs = Some hob" "hs \<noteq> t"
    and hop: "lookup_prop (objs s) hs ''hasOwnProperty''
                = Some (DataP (VFun FHasOwnProperty) w' en' c')"
    and run: "whenAttr ivk e (VStr n) (VObj hs) s = (Inr v, s')"
  shows "(props hob ''get'' \<noteq> None \<and> props hob ''set'' = None \<longrightarrow>
            own_desc (objs s') (VObj t) n
              = Some (AccP (Some (FAttrGet (fresh s) e n hs)) None False False)
          \<and> (\<forall>ivk' x. assign ivk' (VObj t) n x s'
                = (Inl (TypeError ''Cannot set property which has only a getter''), s')))
       \<and> (props hob ''set'' \<noteq> None \<and> props hob ''get'' = None \<longrightarrow>
            own_desc (objs s') (VObj t) n
              = Some (AccP None (Some (FAttrSet (fresh s) e n hs)) False False)
          \<and> (\<forall>ivk'. get ivk' (VObj t) n s' = (Inr VUndefined, s')))"
proof -
  from whenAttr_step[OF eng tgt found noown unused_set unused_get hobj hop run]
  obtain ob' where
    1: "objs s' t = Some ob'"
       "props ob' n = Some
          (if props hob ''get'' = None \<and> props hob ''set'' = None
           then DataP VUndefined False False False
           else AccP (if props hob ''get'' \<noteq> None then Some (FAttrGet (fresh s) e n hs) else None)
                     (if props hob ''set'' \<noteq> None then Some (FAttrSet (fresh s) e n hs) else None)
                     False False)"
       "lookup_prop (objs s') t n = props ob' n"
    by blast
  show ?thesis
    using 1 by (auto simp add: own_desc_def assign_def get_def)
qed

theorem whenAttr_defines_given_accessors_witness:
  "own_desc (objs ex_go) (VObj 2) ''x''
     = Some (AccP (Some (FAttrGet (fresh ex_state) 3 ''x'' 5)) None False False)
 \<and> assign (invoke (Suc 0) ex_uf) (VObj 2) ''x'' (VNum 9) ex_go
     = (Inl (TypeError ''Cannot set property which has only a getter''), ex_go)
 \<and> own_desc (objs ex_so) (VObj 2) ''x''
     = Some (AccP None (Some (FAttrSet (fresh ex_state) 3 ''x'' 9)) False False)
 \<and> get (invoke (Suc 0) ex_uf) (VObj 2) ''x'' ex_so = (Inr VUndefined, ex_so)"
proof -
  have eng: "engs ex_state 3 = Some \<lparr>object = VObj 2\<rparr>"
    by (simp add: ex_defs)
  have tgt: "objs ex_state 2 = Some account"
    by (simp add: ex_defs)
  have found: "getPropertyDescriptor (invoke 0 ex_uf) (VObj 2) ''x'' 10 ex_state
      = (Inr (Desc (AccP (Some (FUser 2 ''get x'' False)) (Some (FUser 3 ''set x'' False))
                     False True)), ex_state)"
    by (simp add: eval_attr ex_defs)
  have noown: "props account ''x'' = None"
    by (simp add: ex_defs)
  have us: "lookup_prop (objs ex_state) 2 (''_CENSOR_set_'' @ ''x'') = None"
    by (simp add: ex_defs lookup_prop.simps)
  have ug: "lookup_prop (objs ex_state) 2 (''_CENSOR_get_'' @ ''x'') = None"
    by (simp add: ex_defs lookup_prop.simps)
  have h5: "objs ex_state 5 = Some handles_get" "(5::nat) \<noteq> 2"
    by (simp_all add: ex_defs)
  have h9: "objs ex_state 9 = Some handles_set" "(9::nat) \<noteq> 2"
    by (simp_all add: ex_defs)
  have hop5: "lookup_prop (objs ex_state) 5 ''hasOwnProperty''
      = Some (DataP (VFun FHasOwnProperty) True False True)"
    by (simp add: ex_defs lookup_prop.simps)
  have hop9: "lookup_prop (objs ex_state) 9 ''hasOwnProperty''
      = Some (DataP (VFun FHasOwnProperty) True False True)"
    by (simp add: ex_defs lookup_prop.simps)
  have r5: "whenAttr (invoke 0 ex_uf) 3 (VStr ''x'') (VObj 5) ex_state = (Inr (VEng 3), ex_go)"
    unfolding ex_go_def by (simp add: eval_attr ex_defs)
  have r9: "whenAttr (invoke 0 ex_uf) 3 (VStr ''x'') (VObj 9) ex_state = (Inr (VEng 3), ex_so)"
    unfolding ex_so_def by (simp add: eval_attr ex_defs)
  have g5: "props handles_get ''get'' \<noteq> None \<and> props handles_get ''set'' = None"
    by (simp add: ex_defs)
  have g9: "props handles_set ''set'' \<noteq> None \<and> props handles_set ''get'' = None"
    by (simp add: ex_defs)
  from whenAttr_defines_given_accessors[OF eng tgt found noown us ug h5 hop5 r5, THEN conjunct1,
      THEN mp, OF g5]
  have a: "own_desc (objs ex_go) (VObj 2) ''x''
       = Some (AccP (Some (FAttrGet (fresh ex_state) 3 ''x'' 5)) None False False)"
    and b: "assign (invoke (Suc 0) ex_uf) (VObj 2) ''x'' (VNum 9) ex_go
       = (Inl (TypeError ''Cannot set property which has only a getter''), ex_go)"
    by blast+
  from whenAttr_defines_given_accessors[OF eng tgt found noown us ug h9 hop9 r9, THEN conjunct2,
      THEN mp, OF g9]
  have c: "own_desc (objs ex_so) (VObj 2) ''x''
       = Some (AccP None (Some (FAttrSet (fresh ex_state) 3 ''x'' 9)) False False)"
    and d: "get (invoke (Suc 0) ex_uf) (VObj 2) ''x'' ex_so = (Inr VUndefined, ex_so)"
    by blast+
  show ?thesis using a b c d by simp
qed

end
